theory Spec2Isabelle
  imports Main
begin

section \<open>The packaging script \<^verbatim>\<open>tools/package.py\<close>\<close>

text \<open>
  The script reads the current working directory, derives a submission name from the
  segments of its path, collects the entries of the directory that match \<^verbatim>\<open>*.dfy\<close>,
  hands them to \<^verbatim>\<open>tar\<close> and prints where the archive is. It is modelled as a function from
  what the script reads of its surroundings (the string \<^verbatim>\<open>os.getcwd()\<close> returns, the names
  in the current directory, what running the archive tool does) to what it does (the
  sequence of writes and subprocess calls, and how the process ends).

  The library functions it calls are modelled for a POSIX platform, where \<^verbatim>\<open>os.sep\<close> is
  the slash, \<^verbatim>\<open>os.path\<close> is \<^verbatim>\<open>posixpath\<close> and file names are case-sensitive.
\<close>

subsection \<open>String operations of Python\<close>

text \<open>\<^verbatim>\<open>s.startswith(p)\<close>\<close>

fun startswith :: "string \<Rightarrow> string \<Rightarrow> bool" where
  "startswith s [] = True"
| "startswith [] (p # ps) = False"
| "startswith (c # cs) (p # ps) = (c = p \<and> startswith cs ps)"

text \<open>\<^verbatim>\<open>sub in s\<close> on strings: \<open>sub\<close> occurs in \<open>s\<close> as a contiguous run of characters.\<close>

fun str_in :: "string \<Rightarrow> string \<Rightarrow> bool" where
  "str_in sub [] = (sub = [])"
| "str_in sub (c # cs) = (startswith (c # cs) sub \<or> str_in sub cs)"

text \<open>
  \<^verbatim>\<open>s.split(sep)\<close> for a separator of one character: the pieces between the separators,
  empty pieces kept, so that the result is never the empty list.
\<close>

fun str_split :: "char \<Rightarrow> string \<Rightarrow> string list" where
  "str_split sep [] = [[]]"
| "str_split sep (c # cs) =
     (if c = sep then [] # str_split sep cs
      else (case str_split sep cs of
              [] \<Rightarrow> [[c]]
            | piece # pieces \<Rightarrow> (c # piece) # pieces))"

text \<open>\<^verbatim>\<open>sep.join(parts)\<close>\<close>

fun str_join :: "string \<Rightarrow> string list \<Rightarrow> string" where
  "str_join sep [] = []"
| "str_join sep [p] = p"
| "str_join sep (p # q # ps) = p @ sep @ str_join sep (q # ps)"

subsection \<open>\<^verbatim>\<open>os.sep\<close> and \<^verbatim>\<open>os.path.normpath\<close>\<close>

definition os_sep :: char where
  "os_sep = CHR ''/''"

text \<open>
  The body of the loop of \<^verbatim>\<open>posixpath.normpath\<close>: empty and \<^verbatim>\<open>.\<close> components are
  skipped, \<^verbatim>\<open>..\<close> removes the component before it where there is one to remove, and is
  kept at the start of a relative path or after another \<^verbatim>\<open>..\<close>; at the root it is dropped.
\<close>

definition normpath_step :: "nat \<Rightarrow> string list \<Rightarrow> string \<Rightarrow> string list" where
  "normpath_step initial_slashes new_comps part =
     (if part = [] \<or> part = ''.'' then new_comps
      else if part \<noteq> ''..'' \<or> (initial_slashes = 0 \<and> new_comps = [])
              \<or> (new_comps \<noteq> [] \<and> last new_comps = ''..'')
           then new_comps @ [part]
      else if new_comps \<noteq> [] then butlast new_comps
      else new_comps)"

definition normpath :: "string \<Rightarrow> string" where
  "normpath p =
     (if p = [] then ''.''
      else
        let initial_slashes =
              (if startswith p ''/'' then
                 (if startswith p ''//'' \<and> \<not> startswith p ''///'' then 2 else 1)
               else (0::nat));
            comps = str_split CHR ''/'' p;
            new_comps = foldl (normpath_step initial_slashes) [] comps;
            joined = str_join ''/'' new_comps;
            res = (if initial_slashes \<noteq> 0
                   then replicate initial_slashes CHR ''/'' @ joined else joined)
        in if res = [] then ''.'' else res)"

subsection \<open>\<^verbatim>\<open>glob.glob\<close> on a pattern without directory part\<close>

text \<open>
  \<^verbatim>\<open>fnmatch\<close> on a POSIX platform, for patterns made of literal characters, \<^verbatim>\<open>*\<close> (any run
  of characters, also none) and \<^verbatim>\<open>?\<close> (any one character); the whole name has to match.
  Bracket sets are left out: the script's pattern has none.
\<close>

fun fnmatchcase :: "string \<Rightarrow> string \<Rightarrow> bool" where
  "fnmatchcase [] [] = True"
| "fnmatchcase [] (p # ps) = (p = CHR ''*'' \<and> fnmatchcase [] ps)"
| "fnmatchcase (c # cs) [] = False"
| "fnmatchcase (c # cs) (p # ps) =
     (if p = CHR ''*'' then fnmatchcase (c # cs) ps \<or> fnmatchcase cs (p # ps)
      else if p = CHR ''?'' then fnmatchcase cs ps
      else c = p \<and> fnmatchcase cs ps)"

text \<open>
  \<^verbatim>\<open>glob._ishidden\<close> looks at the first character. The names of a directory listing are
  never empty, and neither is the script's pattern; on the empty string the model
  answers no.
\<close>

definition ishidden :: "string \<Rightarrow> bool" where
  "ishidden p = (case p of [] \<Rightarrow> False | c # _ \<Rightarrow> c = CHR ''.'')"

text \<open>
  \<^verbatim>\<open>glob._glob1\<close>: the names of the directory, in the order the file system lists them,
  without the hidden ones unless the pattern itself starts with a dot, filtered by the
  pattern. Subdirectories are not visited.
\<close>

definition glob :: "string \<Rightarrow> string list \<Rightarrow> string list" where
  "glob pat names =
     (let shown = (if \<not> ishidden pat then filter (\<lambda>x. \<not> ishidden x) names else names)
      in filter (\<lambda>name. fnmatchcase name pat) shown)"

subsection \<open>What the script reads and what it does\<close>

datatype py_error = IndexError | FileNotFoundError

text \<open>
  \<^verbatim>\<open>subprocess.call(cmd)\<close> runs the tool and returns its return code, whatever it is; where
  the program cannot be started (no \<^verbatim>\<open>tar\<close> on the search path) it raises.
\<close>

datatype call_result = Returned int | Raised py_error

text \<open>
  What one run of the script reads: the string \<^verbatim>\<open>os.getcwd()\<close> returns, the names of the
  entries of the current directory in the order the file system lists them, and what
  the one call of \<^verbatim>\<open>subprocess.call\<close> of the run does.
\<close>

record env =
  getcwd :: string
  listdir :: "string list"
  subprocess_call :: call_result

datatype event =
    StderrWrite string
  | StdoutWrite string
  | SubprocessCall "string list"

text \<open>
  The script ends by running off its last line, by \<^verbatim>\<open>sys.exit\<close>, or with an exception
  nobody catches (the interpreter prints the traceback and ends with status 1).
\<close>

datatype ending = Finished | SysExit int | Uncaught py_error

record outcome =
  trace :: "event list"
  ending :: ending

text \<open>The exit status the parent process sees: the low eight bits of the exit code.\<close>

fun exit_status :: "ending \<Rightarrow> int" where
  "exit_status Finished = 0"
| "exit_status (SysExit code) = code mod 256"
| "exit_status (Uncaught e) = 1"

subsection \<open>The script\<close>

definition path :: "env \<Rightarrow> string" where
  "path e = normpath (getcwd e)"

text \<open>The condition of the list comprehension.\<close>

definition wanted :: "string \<Rightarrow> bool" where
  "wanted segment = (str_in ''chapter'' segment \<or> str_in ''project'' segment)"

text \<open>\<^verbatim>\<open>xs[-1]\<close>: the last element, \<^verbatim>\<open>IndexError\<close> on the empty list.\<close>

definition index_last :: "'a list \<Rightarrow> py_error + 'a" where
  "index_last xs = (case xs of [] \<Rightarrow> Inl IndexError | _ # _ \<Rightarrow> Inr (last xs))"

text \<open>The variable \<^verbatim>\<open>chapter\<close>, or the \<^verbatim>\<open>IndexError\<close> raised in its place.\<close>

definition chapter_of :: "string \<Rightarrow> py_error + string" where
  "chapter_of p = index_last (filter wanted (str_split os_sep p))"

definition package_name :: "string \<Rightarrow> string" where
  "package_name ch = ch @ ''.tgz''"

definition cmd :: "string \<Rightarrow> string list \<Rightarrow> string list" where
  "cmd pkg names = [''tar'', ''-czf'', pkg] @ glob ''*.dfy'' names"

definition cannot_determine :: string where
  "cannot_determine = ''Cannot determine chapter name from current path.'' @ [CHR 0x0A]"

definition please_upload :: "string \<Rightarrow> string" where
  "please_upload pkg = ''Please upload '' @ pkg @ '' to the submission site.'' @ [CHR 0x0A]"

definition main :: "env \<Rightarrow> outcome" where
  "main e =
     (case chapter_of (path e) of
        Inl err \<Rightarrow> \<lparr>trace = [StderrWrite cannot_determine], ending = SysExit (- 1)\<rparr>
      | Inr ch \<Rightarrow>
          let pkg = package_name ch;
              c = cmd pkg (listdir e)
          in (case subprocess_call e of
                Raised err \<Rightarrow> \<lparr>trace = [SubprocessCall c], ending = Uncaught err\<rparr>
              | Returned rc \<Rightarrow>
                  \<lparr>trace = [SubprocessCall c, StdoutWrite (please_upload pkg)],
                   ending = Finished\<rparr>))"

subsection \<open>Working directories as the operating system reports them\<close>

text \<open>
  These two definitions describe inputs, not the script. On a POSIX system \<^verbatim>\<open>os.getcwd()\<close>
  returns an absolute path without empty, \<^verbatim>\<open>.\<close> or \<^verbatim>\<open>..\<close> components: the string
  \<open>absolute comps\<close> for a list \<open>comps\<close> of \<open>plain\<close> names (or the root itself).
\<close>

definition absolute :: "string list \<Rightarrow> string" where
  "absolute comps = concat (map (\<lambda>c. CHR ''/'' # c) comps)"

definition plain :: "string \<Rightarrow> bool" where
  "plain c = (c \<noteq> [] \<and> c \<noteq> ''.'' \<and> c \<noteq> ''..'' \<and> CHR ''/'' \<notin> set c)"

subsection \<open>Runs used as examples\<close>

text \<open>The two scenarios of the specification, and variations of the first.\<close>

definition chapter3_dir :: env where
  "chapter3_dir =
     \<lparr>getcwd = ''/home/user/course/chapter3'', listdir = [''a.dfy'', ''b.dfy''],
      subprocess_call = Returned 0\<rparr>"

definition lab3_dir :: env where
  "lab3_dir =
     \<lparr>getcwd = ''/home/user/course/lab3'', listdir = [''a.dfy'', ''b.dfy''],
      subprocess_call = Returned 0\<rparr>"

text \<open>Two segments match; the script is started in a subdirectory of the chapter.\<close>

definition nested_dir :: env where
  "nested_dir =
     \<lparr>getcwd = ''/home/project1/chapter3/src'', listdir = [''a.dfy''],
      subprocess_call = Returned 0\<rparr>"

text \<open>The directory name is capitalised.\<close>

definition capital_dir :: env where
  "capital_dir = chapter3_dir\<lparr>getcwd := ''/home/user/course/Chapter3''\<rparr>"

text \<open>No \<^verbatim>\<open>tar\<close> on the search path.\<close>

definition tar_missing :: env where
  "tar_missing = chapter3_dir\<lparr>subprocess_call := Raised FileNotFoundError\<rparr>"

text \<open>\<^verbatim>\<open>tar\<close> runs and fails.\<close>

definition tar_failed :: env where
  "tar_failed = chapter3_dir\<lparr>subprocess_call := Returned 2\<rparr>"

text \<open>A directory without Dafny files, one with a hidden one, and one after a first run.\<close>

definition no_dfy_dir :: env where
  "no_dfy_dir = chapter3_dir\<lparr>listdir := [''notes.txt'', ''Makefile'']\<rparr>"

definition hidden_dir :: env where
  "hidden_dir = chapter3_dir\<lparr>listdir := [''.hidden.dfy'', ''a.dfy'']\<rparr>"

definition rerun_dir :: env where
  "rerun_dir = chapter3_dir\<lparr>listdir := [''a.dfy'', ''chapter3.tgz'', ''b.dfy'']\<rparr>"

section \<open>Facts about the library functions\<close>

lemma startswith_iff: "startswith s p \<longleftrightarrow> (\<exists>rest. s = p @ rest)"
  by (induction s p rule: startswith.induct) auto

lemma str_in_iff: "str_in sub s \<longleftrightarrow> (\<exists>before after. s = before @ sub @ after)"
proof (induction s)
  case Nil
  then show ?case by auto
next
  case (Cons c cs)
  show ?case
  proof
    assume "str_in sub (c # cs)"
    then consider "startswith (c # cs) sub" | "str_in sub cs" by auto
    then show "\<exists>before after. c # cs = before @ sub @ after"
    proof cases
      case 1
      then obtain rest where "c # cs = sub @ rest" by (auto simp: startswith_iff)
      then have "c # cs = [] @ sub @ rest" by simp
      then show ?thesis by blast
    next
      case 2
      then obtain before after where "cs = before @ sub @ after" using Cons.IH by blast
      then have "c # cs = (c # before) @ sub @ after" by simp
      then show ?thesis by blast
    qed
  next
    assume "\<exists>before after. c # cs = before @ sub @ after"
    then obtain before after where eq: "c # cs = before @ sub @ after" by blast
    show "str_in sub (c # cs)"
    proof (cases before)
      case Nil
      with eq have "startswith (c # cs) sub" by (auto simp: startswith_iff)
      then show ?thesis by simp
    next
      case (Cons b bs)
      with eq have "cs = bs @ sub @ after" by simp
      then have "str_in sub cs" using Cons.IH by blast
      then show ?thesis by simp
    qed
  qed
qed

lemma str_split_not_Nil: "str_split sep s \<noteq> []"
  by (induction s) (auto split: list.splits)

lemma wanted_iff:
  "wanted s \<longleftrightarrow> (\<exists>before after. s = before @ ''chapter'' @ after \<or> s = before @ ''project'' @ after)"
  unfolding wanted_def str_in_iff by blast

lemma wanted_not_Nil: "wanted s \<Longrightarrow> s \<noteq> []"
  by (auto simp: wanted_iff)

lemma wanted_length: "wanted s \<Longrightarrow> 7 \<le> length s"
  by (auto simp: wanted_iff)

lemma last_filter_split:
  "filter P xs \<noteq> [] \<Longrightarrow>
     \<exists>before after. xs = before @ last (filter P xs) # after \<and> P (last (filter P xs))
        \<and> (\<forall>x \<in> set after. \<not> P x)"
proof (induction xs rule: rev_induct)
  case Nil
  then show ?case by simp
next
  case (snoc x xs)
  show ?case
  proof (cases "P x")
    case True
    then have "xs @ [x] = xs @ last (filter P (xs @ [x])) # [] \<and> P (last (filter P (xs @ [x])))
        \<and> (\<forall>y \<in> set []. \<not> P y)" by simp
    then show ?thesis by blast
  next
    case False
    with snoc.prems have ne: "filter P xs \<noteq> []" by simp
    from snoc.IH [OF ne] obtain before after
      where "xs = before @ last (filter P xs) # after" "P (last (filter P xs))" "\<forall>x \<in> set after. \<not> P x"
      by blast
    with False have "xs @ [x] = before @ last (filter P (xs @ [x])) # (after @ [x])
        \<and> P (last (filter P (xs @ [x]))) \<and> (\<forall>y \<in> set (after @ [x]). \<not> P y)"
      by auto
    then show ?thesis by blast
  qed
qed

lemma index_last_filter:
  "index_last (filter P xs) = (if \<exists>x \<in> set xs. P x then Inr (last (filter P xs)) else Inl IndexError)"
  by (auto simp: index_last_def filter_empty_conv split: list.splits)

lemma fnmatchcase_literal:
  "CHR ''*'' \<notin> set pat \<Longrightarrow> CHR ''?'' \<notin> set pat \<Longrightarrow> fnmatchcase name pat \<longleftrightarrow> name = pat"
  by (induction name pat rule: fnmatchcase.induct) auto

lemma fnmatchcase_star_literal:
  assumes "CHR ''*'' \<notin> set ps" and "CHR ''?'' \<notin> set ps"
  shows "fnmatchcase name (CHR ''*'' # ps) \<longleftrightarrow> (\<exists>stem. name = stem @ ps)"
proof (induction name)
  case Nil
  from assms show ?case by (auto simp: fnmatchcase_literal)
next
  case (Cons c cs)
  have "fnmatchcase (c # cs) (CHR ''*'' # ps) \<longleftrightarrow> c # cs = ps \<or> (\<exists>stem. cs = stem @ ps)"
    using assms Cons.IH by (simp add: fnmatchcase_literal)
  also have "\<dots> \<longleftrightarrow> (\<exists>stem. c # cs = stem @ ps)"
    by (auto simp: Cons_eq_append_conv)
  finally show ?case .
qed

lemma fnmatchcase_star_dfy: "fnmatchcase name ''*.dfy'' \<longleftrightarrow> (\<exists>stem. name = stem @ ''.dfy'')"
  by (rule fnmatchcase_star_literal) simp_all

lemma ishidden_iff: "ishidden name \<longleftrightarrow> (\<exists>rest. name = CHR ''.'' # rest)"
  by (cases name) (auto simp: ishidden_def)

lemma glob_dfy:
  "glob ''*.dfy'' names = filter (\<lambda>name. \<not> ishidden name \<and> fnmatchcase name ''*.dfy'') names"
  by (simp add: glob_def ishidden_def)

lemma set_glob_dfy:
  "set (glob ''*.dfy'' names) =
     {name \<in> set names. (\<exists>stem. name = stem @ ''.dfy'') \<and> \<not> (\<exists>rest. name = CHR ''.'' # rest)}"
  by (auto simp: glob_dfy fnmatchcase_star_dfy ishidden_iff)

lemma str_split_no_sep: "sep \<notin> set s \<Longrightarrow> str_split sep s = [s]"
  by (induction s) auto

lemma str_split_append_sep:
  "sep \<notin> set s \<Longrightarrow> str_split sep (s @ sep # rest) = s # str_split sep rest"
  by (induction s) auto

lemma str_split_absolute_tail:
  "CHR ''/'' \<notin> set c \<Longrightarrow> list_all plain comps \<Longrightarrow>
     str_split CHR ''/'' (c @ absolute comps) = c # comps"
proof (induction comps arbitrary: c)
  case Nil
  then show ?case by (simp add: absolute_def str_split_no_sep)
next
  case (Cons d ds)
  from Cons.prems have "plain d" and ds: "list_all plain ds" by simp_all
  then have d: "CHR ''/'' \<notin> set d" by (simp add: plain_def)
  have "str_split CHR ''/'' (c @ absolute (d # ds)) = c # str_split CHR ''/'' (d @ absolute ds)"
    using Cons.prems(1) by (simp add: absolute_def str_split_append_sep)
  with Cons.IH [OF d ds] show ?case by simp
qed

lemma str_split_absolute:
  "list_all plain comps \<Longrightarrow> comps \<noteq> [] \<Longrightarrow> str_split CHR ''/'' (absolute comps) = [] # comps"
proof (cases comps)
  case Nil
  then show "comps \<noteq> [] \<Longrightarrow> ?thesis" by simp
next
  case (Cons c cs)
  assume "list_all plain comps"
  with Cons have "plain c" and "list_all plain cs" by simp_all
  then have "CHR ''/'' \<notin> set c" and "list_all plain cs" by (simp_all add: plain_def)
  then have "str_split CHR ''/'' (c @ absolute cs) = c # cs" by (rule str_split_absolute_tail)
  with Cons show ?thesis by (simp add: absolute_def)
qed

lemma foldl_normpath_step_plain:
  "list_all plain comps \<Longrightarrow> foldl (normpath_step n) acc comps = acc @ comps"
  by (induction comps arbitrary: acc) (auto simp: normpath_step_def plain_def)

lemma str_join_concat:
  "parts \<noteq> [] \<Longrightarrow> sep @ str_join sep parts = concat (map (\<lambda>p. sep @ p) parts)"
  by (induction sep parts rule: str_join.induct) simp_all

lemma str_join_absolute:
  "comps \<noteq> [] \<Longrightarrow> CHR ''/'' # str_join ''/'' comps = absolute comps"
  using str_join_concat [of comps "''/''"] by (simp add: absolute_def)

lemma normpath_absolute:
  assumes "list_all plain comps" and "comps \<noteq> []"
  shows "normpath (absolute comps) = absolute comps"
proof -
  from assms obtain c cs where comps: "comps = c # cs" by (cases comps) auto
  with assms(1) have "plain c" by simp
  then obtain x xs where c: "c = x # xs" and x: "x \<noteq> CHR ''/''"
    by (cases c) (auto simp: plain_def)
  have abs: "absolute comps = CHR ''/'' # x # xs @ absolute cs"
    by (simp add: comps c absolute_def)
  have slashes: "startswith (absolute comps) ''/''" "\<not> startswith (absolute comps) ''//''"
    using x by (simp_all add: abs)
  have "foldl (normpath_step 1) [] (str_split CHR ''/'' (absolute comps)) = comps"
    using assms by (simp add: str_split_absolute foldl_normpath_step_plain normpath_step_def)
  with slashes str_join_absolute [OF assms(2)] show ?thesis
    by (simp add: normpath_def Let_def abs)
qed

lemma normpath_root: "normpath ''/'' = ''/''"
  by (simp add: normpath_def normpath_step_def)

lemma segments_of_absolute:
  assumes "list_all plain comps" and "comps \<noteq> []"
  shows "str_split os_sep (normpath (absolute comps)) = [] # comps"
  using assms by (simp add: normpath_absolute str_split_absolute os_sep_def)

section \<open>The two branches of the script\<close>

lemmas run_defs =
  path_def normpath_def normpath_step_def os_sep_def wanted_def chapter_of_def
  index_last_def package_name_def cmd_def glob_def ishidden_def main_def
  cannot_determine_def please_upload_def Let_def

lemmas example_defs =
  chapter3_dir_def lab3_dir_def nested_dir_def capital_dir_def tar_missing_def
  tar_failed_def no_dfy_dir_def hidden_dir_def rerun_dir_def

lemma main_derived:
  assumes "chapter_of (path e) = Inr ch"
  shows "main e =
     (case subprocess_call e of
        Raised err \<Rightarrow>
          \<lparr>trace = [SubprocessCall ([''tar'', ''-czf'', ch @ ''.tgz''] @ glob ''*.dfy'' (listdir e))],
           ending = Uncaught err\<rparr>
      | Returned rc \<Rightarrow>
          \<lparr>trace = [SubprocessCall ([''tar'', ''-czf'', ch @ ''.tgz''] @ glob ''*.dfy'' (listdir e)),
                    StdoutWrite (''Please upload '' @ ch @ ''.tgz'' @ '' to the submission site.''
                                 @ [CHR 0x0A])],
           ending = Finished\<rparr>)"
  using assms
  by (simp add: main_def cmd_def package_name_def please_upload_def Let_def split: call_result.splits)

lemma main_not_derived:
  assumes "chapter_of (path e) = Inl err"
  shows "main e =
     \<lparr>trace = [StderrWrite (''Cannot determine chapter name from current path.'' @ [CHR 0x0A])],
      ending = SysExit (- 1)\<rparr>"
  using assms by (simp add: main_def cannot_determine_def)

lemma chapter3_dir_chapter: "chapter_of (path chapter3_dir) = Inr ''chapter3''"
  by (simp add: example_defs run_defs)

text \<open>The first scenario of the specification, run to its end.\<close>

lemma scenario_chapter3:
  "main chapter3_dir =
     \<lparr>trace = [SubprocessCall [''tar'', ''-czf'', ''chapter3.tgz'', ''a.dfy'', ''b.dfy''],
               StdoutWrite (''Please upload chapter3.tgz to the submission site.'' @ [CHR 0x0A])],
      ending = Finished\<rparr>"
  by (simp add: main_derived [OF chapter3_dir_chapter]) (simp add: example_defs run_defs)

section \<open>The claims\<close>

text \<open>
  C1. Whenever some segment of the normalised working-directory path, split at the path
  separator, contains \<^verbatim>\<open>chapter\<close> or \<^verbatim>\<open>project\<close>, the derived name is the last such
  segment: the segments are \<open>before @ segment # after\<close> where \<open>segment\<close> matches and
  nothing in \<open>after\<close> does, \<open>segment\<close> is the value of \<^verbatim>\<open>chapter\<close>, and the archive the tool
  is asked to write is \<open>segment\<close> followed by \<^verbatim>\<open>.tgz\<close>. (For a working directory as the
  operating system reports it normalisation changes nothing, see \<open>segments_of_absolute\<close>.)
\<close>

theorem derived_name_is_last_matching_segment:
  assumes "\<exists>segment \<in> set (str_split os_sep (path e)). wanted segment"
  shows "\<exists>before segment after.
           str_split os_sep (path e) = before @ segment # after
         \<and> wanted segment \<and> (\<forall>s \<in> set after. \<not> wanted s)
         \<and> chapter_of (path e) = Inr segment
         \<and> package_name segment = segment @ ''.tgz''
         \<and> (\<exists>rest. trace (main e) =
               SubprocessCall ([''tar'', ''-czf'', segment @ ''.tgz''] @ glob ''*.dfy'' (listdir e))
               # rest)"
proof -
  let ?segs = "str_split os_sep (path e)"
  let ?seg = "last (filter wanted ?segs)"
  from assms have ne: "filter wanted ?segs \<noteq> []"
    by (simp add: filter_empty_conv)
  from last_filter_split [OF ne] obtain before after
    where split: "?segs = before @ ?seg # after" "wanted ?seg" "\<forall>s \<in> set after. \<not> wanted s"
    by blast
  from ne have ch: "chapter_of (path e) = Inr ?seg"
    by (simp add: chapter_of_def index_last_def split: list.splits)
  have "\<exists>rest. trace (main e) =
      SubprocessCall ([''tar'', ''-czf'', ?seg @ ''.tgz''] @ glob ''*.dfy'' (listdir e)) # rest"
    by (cases "subprocess_call e") (simp_all add: main_derived [OF ch])
  moreover have "package_name ?seg = ?seg @ ''.tgz''"
    by (simp add: package_name_def)
  ultimately show ?thesis using split ch by blast
qed

theorem derived_name_is_last_matching_segment_witness:
  "(\<exists>segment \<in> set (str_split os_sep (path nested_dir)). wanted segment)
   \<and> (\<exists>before segment after.
           str_split os_sep (path nested_dir) = before @ segment # after
         \<and> wanted segment \<and> (\<forall>s \<in> set after. \<not> wanted s)
         \<and> chapter_of (path nested_dir) = Inr segment
         \<and> package_name segment = segment @ ''.tgz''
         \<and> (\<exists>rest. trace (main nested_dir) =
               SubprocessCall ([''tar'', ''-czf'', segment @ ''.tgz'']
                               @ glob ''*.dfy'' (listdir nested_dir))
               # rest))"
proof -
  have h: "\<exists>segment \<in> set (str_split os_sep (path nested_dir)). wanted segment"
    by (simp add: nested_dir_def path_def normpath_def normpath_step_def os_sep_def wanted_def)
  from h derived_name_is_last_matching_segment [OF h] show ?thesis by (rule conjI)
qed

text \<open>
  C2. Whenever no segment of the normalised working-directory path contains \<^verbatim>\<open>chapter\<close> or
  \<^verbatim>\<open>project\<close>, the whole run is: write \<^verbatim>\<open>Cannot determine chapter name from current path.\<close>
  and a newline to standard error, then \<^verbatim>\<open>sys.exit(-1)\<close>. The exit status is 255, and the
  archive tool is never called.
\<close>

theorem no_matching_segment_fails:
  assumes "\<not> (\<exists>segment \<in> set (str_split os_sep (path e)). wanted segment)"
  shows "main e =
           \<lparr>trace = [StderrWrite (''Cannot determine chapter name from current path.''
                                  @ [CHR 0x0A])],
            ending = SysExit (- 1)\<rparr>
       \<and> exit_status (ending (main e)) = 255
       \<and> exit_status (ending (main e)) \<noteq> 0
       \<and> (\<forall>c. SubprocessCall c \<notin> set (trace (main e)))"
proof -
  from assms have "filter wanted (str_split os_sep (path e)) = []"
    by (simp add: filter_empty_conv)
  then have "chapter_of (path e) = Inl IndexError"
    by (simp add: chapter_of_def index_last_def)
  then have "main e =
      \<lparr>trace = [StderrWrite (''Cannot determine chapter name from current path.'' @ [CHR 0x0A])],
       ending = SysExit (- 1)\<rparr>"
    by (rule main_not_derived)
  then show ?thesis by simp
qed

theorem no_matching_segment_fails_witness:
  "\<not> (\<exists>segment \<in> set (str_split os_sep (path lab3_dir)). wanted segment)
   \<and> main lab3_dir =
           \<lparr>trace = [StderrWrite (''Cannot determine chapter name from current path.''
                                  @ [CHR 0x0A])],
            ending = SysExit (- 1)\<rparr>
   \<and> exit_status (ending (main lab3_dir)) = 255
   \<and> exit_status (ending (main lab3_dir)) \<noteq> 0
   \<and> (\<forall>c. SubprocessCall c \<notin> set (trace (main lab3_dir)))"
proof -
  have h: "\<not> (\<exists>segment \<in> set (str_split os_sep (path lab3_dir)). wanted segment)"
    by (simp add: lab3_dir_def path_def normpath_def normpath_step_def os_sep_def wanted_def)
  from h no_matching_segment_fails [OF h] show ?thesis by (rule conjI)
qed

text \<open>
  C3. Whenever a name is derived, the script calls the tool once, with \<^verbatim>\<open>tar -czf\<close>, the
  archive name and a list of members, and the set of these members is exactly the set of
  names in the current directory that \<^verbatim>\<open>glob\<close> matches against \<^verbatim>\<open>*.dfy\<close>: the names that
  end in \<^verbatim>\<open>.dfy\<close> and do not start with a dot. Only the directory itself is listed.
\<close>

theorem archive_members_are_matching_files:
  assumes "chapter_of (path e) = Inr ch"
  shows "\<exists>members rest.
           trace (main e) = SubprocessCall ([''tar'', ''-czf'', ch @ ''.tgz''] @ members) # rest
         \<and> (\<forall>c. SubprocessCall c \<notin> set rest)
         \<and> members = glob ''*.dfy'' (listdir e)
         \<and> set members =
             {name \<in> set (listdir e).
                (\<exists>stem. name = stem @ ''.dfy'') \<and> \<not> (\<exists>tl. name = CHR ''.'' # tl)}"
  by (cases "subprocess_call e") (simp_all add: main_derived [OF assms] set_glob_dfy)

theorem archive_members_are_matching_files_witness:
  "chapter_of (path chapter3_dir) = Inr ''chapter3''
   \<and> (\<exists>members rest.
           trace (main chapter3_dir) =
             SubprocessCall ([''tar'', ''-czf'', ''chapter3'' @ ''.tgz''] @ members) # rest
         \<and> (\<forall>c. SubprocessCall c \<notin> set rest)
         \<and> members = glob ''*.dfy'' (listdir chapter3_dir)
         \<and> set members =
             {name \<in> set (listdir chapter3_dir).
                (\<exists>stem. name = stem @ ''.dfy'') \<and> \<not> (\<exists>tl. name = CHR ''.'' # tl)})"
proof -
  have h: "chapter_of (path chapter3_dir) = Inr ''chapter3''"
    by (simp add: example_defs run_defs)
  from h archive_members_are_matching_files [OF h] show ?thesis by (rule conjI)
qed

text \<open>
  C4 speaks of the archive that results when nothing matches \<^verbatim>\<open>*.dfy\<close>. The script never
  writes an archive itself: it hands a command to \<^verbatim>\<open>tar\<close>, and what \<^verbatim>\<open>tar\<close> makes of a
  command without members is the behaviour of that program, which the script neither
  contains nor checks. So there is nothing about the archive to state here. The script's
  own side is this: with a derived name and no matching name it still makes its one
  call, \<^verbatim>\<open>tar -czf\<close> with the archive name and no member at all.
\<close>

lemma call_without_members:
  assumes "chapter_of (path e) = Inr ch"
    and "glob ''*.dfy'' (listdir e) = []"
  shows "\<exists>rest. trace (main e) = SubprocessCall [''tar'', ''-czf'', ch @ ''.tgz''] # rest
           \<and> (\<forall>c. SubprocessCall c \<notin> set rest)"
  by (cases "subprocess_call e") (simp_all add: main_derived [OF assms(1)] assms(2))

lemma call_without_members_example:
  "chapter_of (path no_dfy_dir) = Inr ''chapter3''
   \<and> glob ''*.dfy'' (listdir no_dfy_dir) = []
   \<and> (\<exists>rest. trace (main no_dfy_dir) = SubprocessCall [''tar'', ''-czf'', ''chapter3'' @ ''.tgz''] # rest
           \<and> (\<forall>c. SubprocessCall c \<notin> set rest))"
proof -
  have h1: "chapter_of (path no_dfy_dir) = Inr ''chapter3''"
    by (simp add: example_defs run_defs)
  have h2: "glob ''*.dfy'' (listdir no_dfy_dir) = []"
    by (simp add: example_defs glob_def ishidden_def)
  from h2 call_without_members [OF h1 h2]
  have "glob ''*.dfy'' (listdir no_dfy_dir) = []
   \<and> (\<exists>rest. trace (main no_dfy_dir) = SubprocessCall [''tar'', ''-czf'', ''chapter3'' @ ''.tgz''] # rest
           \<and> (\<forall>c. SubprocessCall c \<notin> set rest))"
    by (rule conjI)
  with h1 show ?thesis by (rule conjI)
qed

text \<open>
  C5, as the script has it. A derived name alone does not give the line on standard
  output: where \<^verbatim>\<open>subprocess.call\<close> raises because the tool cannot be started, the script
  ends in the exception and writes nothing.
\<close>

theorem upload_line_counterexample:
  "chapter_of (path tar_missing) = Inr ''chapter3''
   \<and> trace (main tar_missing) =
       [SubprocessCall [''tar'', ''-czf'', ''chapter3.tgz'', ''a.dfy'', ''b.dfy'']]
   \<and> ending (main tar_missing) = Uncaught FileNotFoundError"
proof -
  have h: "chapter_of (path tar_missing) = Inr ''chapter3''"
    by (simp add: example_defs run_defs)
  show ?thesis
    by (simp add: h main_derived [OF h]) (simp add: example_defs glob_def ishidden_def)
qed

text \<open>
  C5, amended. Whenever a name is derived and the call of the archive tool returns, with
  whatever return code, the script writes to standard output once, after the call, the
  text \<^verbatim>\<open>Please upload <archivePath> to the submission site.\<close> followed by a newline, where
  the archive path is the derived name followed by \<^verbatim>\<open>.tgz\<close>. This text is one line as long
  as the derived name has no newline in it.
\<close>

theorem upload_line_when_tool_returns:
  assumes "chapter_of (path e) = Inr ch"
    and "subprocess_call e = Returned rc"
  shows "(\<exists>c. trace (main e) =
             [SubprocessCall c,
              StdoutWrite (''Please upload '' @ ch @ ''.tgz'' @ '' to the submission site.''
                           @ [CHR 0x0A])])
       \<and> (CHR 0x0A \<notin> set ch \<longrightarrow>
           count_list (''Please upload '' @ ch @ ''.tgz'' @ '' to the submission site.''
                           @ [CHR 0x0A]) (CHR 0x0A) = 1)"
  by (simp add: main_derived [OF assms(1)] assms(2))

theorem upload_line_when_tool_returns_witness:
  "chapter_of (path tar_failed) = Inr ''chapter3''
   \<and> subprocess_call tar_failed = Returned 2
   \<and> CHR 0x0A \<notin> set ''chapter3''
   \<and> (\<exists>c. trace (main tar_failed) =
             [SubprocessCall c,
              StdoutWrite (''Please upload chapter3.tgz to the submission site.'' @ [CHR 0x0A])])
   \<and> count_list (''Please upload chapter3.tgz to the submission site.'' @ [CHR 0x0A]) (CHR 0x0A) = 1"
proof -
  have h1: "chapter_of (path tar_failed) = Inr ''chapter3''"
    by (simp add: example_defs run_defs)
  have h2: "subprocess_call tar_failed = Returned 2"
    by (simp add: example_defs)
  have h3: "CHR 0x0A \<notin> set ''chapter3''"
    by simp
  from upload_line_when_tool_returns [OF h1 h2] h3
  have "(\<exists>c. trace (main tar_failed) =
             [SubprocessCall c,
              StdoutWrite (''Please upload chapter3.tgz to the submission site.'' @ [CHR 0x0A])])"
    and "count_list (''Please upload chapter3.tgz to the submission site.'' @ [CHR 0x0A]) (CHR 0x0A) = 1"
    by simp_all
  with h1 h2 h3 show ?thesis by blast
qed

text \<open>
  C6, as the script has it. A derived name alone does not give exit status 0 and the
  success message: where \<^verbatim>\<open>subprocess.call\<close> raises because the tool cannot be started, the
  exception is not caught, the script ends with exit status 1 and its only action has
  been the call.
\<close>

theorem tool_status_counterexample:
  "chapter_of (path tar_missing) = Inr ''chapter3''
   \<and> ending (main tar_missing) = Uncaught FileNotFoundError
   \<and> exit_status (ending (main tar_missing)) = 1
   \<and> exit_status (ending (main tar_missing)) \<noteq> 0
   \<and> trace (main tar_missing) =
       [SubprocessCall [''tar'', ''-czf'', ''chapter3.tgz'', ''a.dfy'', ''b.dfy'']]"
proof -
  have h: "chapter_of (path tar_missing) = Inr ''chapter3''"
    by (simp add: example_defs run_defs)
  show ?thesis
    by (simp add: h main_derived [OF h]) (simp add: example_defs glob_def ishidden_def)
qed

text \<open>
  C6, amended. Whenever a name is derived and the call of the archive tool returns, the
  script ends normally with exit status 0 and its last action is to print the success
  message, whatever the return code of the tool was: the return code is not looked at,
  the run is the same as the run in which the tool returned 0.
\<close>

theorem tool_status_ignored:
  assumes "chapter_of (path e) = Inr ch"
    and "subprocess_call e = Returned rc"
  shows "ending (main e) = Finished
       \<and> exit_status (ending (main e)) = 0
       \<and> last (trace (main e)) =
            StdoutWrite (''Please upload '' @ ch @ ''.tgz'' @ '' to the submission site.''
                         @ [CHR 0x0A])
       \<and> main e = main (e\<lparr>subprocess_call := Returned 0\<rparr>)"
proof -
  have "chapter_of (path (e\<lparr>subprocess_call := Returned 0\<rparr>)) = Inr ch"
    using assms(1) by (simp add: path_def)
  from main_derived [OF this] main_derived [OF assms(1)] assms(2)
  show ?thesis by simp
qed

theorem tool_status_ignored_witness:
  "chapter_of (path tar_failed) = Inr ''chapter3''
   \<and> subprocess_call tar_failed = Returned 2
   \<and> ending (main tar_failed) = Finished
   \<and> exit_status (ending (main tar_failed)) = 0
   \<and> last (trace (main tar_failed)) =
        StdoutWrite (''Please upload '' @ ''chapter3'' @ ''.tgz'' @ '' to the submission site.''
                     @ [CHR 0x0A])
   \<and> main tar_failed = main (tar_failed\<lparr>subprocess_call := Returned 0\<rparr>)"
proof -
  have h1: "chapter_of (path tar_failed) = Inr ''chapter3''"
    by (simp add: example_defs run_defs)
  have h2: "subprocess_call tar_failed = Returned 2"
    by (simp add: example_defs)
  from h1 h2 tool_status_ignored [OF h1 h2] show ?thesis by blast
qed

text \<open>
  C7. A second run in the same working directory, whose listing has the names of the
  first run and at most the archive of the first run in addition, derives the same name
  and passes the same set of members to the tool: the archive never matches \<^verbatim>\<open>*.dfy\<close>.
  (The script does not read the files; what is in them plays no part.)
\<close>

theorem rerun_same_name_and_members:
  assumes "chapter_of (path e) = Inr ch"
    and "getcwd e' = getcwd e"
    and "set (listdir e) \<subseteq> set (listdir e')"
    and "set (listdir e') \<subseteq> insert (ch @ ''.tgz'') (set (listdir e))"
  shows "chapter_of (path e') = Inr ch
       \<and> (\<exists>members members' rest rest'.
            trace (main e) = SubprocessCall ([''tar'', ''-czf'', ch @ ''.tgz''] @ members) # rest
          \<and> trace (main e') = SubprocessCall ([''tar'', ''-czf'', ch @ ''.tgz''] @ members') # rest'
          \<and> set members = set members')"
proof -
  have ch': "chapter_of (path e') = Inr ch"
    using assms(1,2) by (simp add: path_def)
  have "\<not> (\<exists>stem. ch @ ''.tgz'' = stem @ ''.dfy'')"
  proof
    assume "\<exists>stem. ch @ ''.tgz'' = stem @ ''.dfy''"
    then obtain stem where "ch @ ''.tgz'' = stem @ ''.dfy''" by blast
    then have "last (ch @ ''.tgz'') = last (stem @ ''.dfy'')" by simp
    then show False by simp
  qed
  then have "name \<in> set (listdir e)"
    if "name \<in> set (listdir e')" and "\<exists>stem. name = stem @ ''.dfy''" for name
    using that assms(4) by auto
  with assms(3) have "set (glob ''*.dfy'' (listdir e')) = set (glob ''*.dfy'' (listdir e))"
    unfolding set_glob_dfy by blast
  then show ?thesis
    using ch'
    by (cases "subprocess_call e"; cases "subprocess_call e'")
      (simp_all add: main_derived [OF assms(1)] main_derived [OF ch'])
qed

theorem rerun_same_name_and_members_witness:
  "chapter_of (path chapter3_dir) = Inr ''chapter3''
   \<and> getcwd rerun_dir = getcwd chapter3_dir
   \<and> set (listdir chapter3_dir) \<subseteq> set (listdir rerun_dir)
   \<and> set (listdir rerun_dir) \<subseteq> insert (''chapter3'' @ ''.tgz'') (set (listdir chapter3_dir))
   \<and> chapter_of (path rerun_dir) = Inr ''chapter3''
   \<and> (\<exists>members members' rest rest'.
        trace (main chapter3_dir) =
          SubprocessCall ([''tar'', ''-czf'', ''chapter3'' @ ''.tgz''] @ members) # rest
      \<and> trace (main rerun_dir) =
          SubprocessCall ([''tar'', ''-czf'', ''chapter3'' @ ''.tgz''] @ members') # rest'
      \<and> set members = set members')"
proof -
  have h1: "chapter_of (path chapter3_dir) = Inr ''chapter3''"
    by (simp add: example_defs run_defs)
  have h2: "getcwd rerun_dir = getcwd chapter3_dir"
    by (simp add: example_defs)
  have h3: "set (listdir chapter3_dir) \<subseteq> set (listdir rerun_dir)"
    by (simp add: example_defs)
  have h4: "set (listdir rerun_dir) \<subseteq> insert (''chapter3'' @ ''.tgz'') (set (listdir chapter3_dir))"
    by (simp add: example_defs)
  from h1 h2 h3 h4 rerun_same_name_and_members [OF h1 h2 h3 h4] show ?thesis by blast
qed

text \<open>
  C8. A derived name is never empty: whatever the path, the value of \<^verbatim>\<open>chapter\<close>, when
  there is one, is one of the segments of the path, has \<^verbatim>\<open>chapter\<close> or \<^verbatim>\<open>project\<close>
  somewhere inside it, and so has at least seven characters.
\<close>

theorem derived_name_nonempty:
  assumes "chapter_of p = Inr ch"
  shows "ch \<noteq> [] \<and> 7 \<le> length ch \<and> ch \<in> set (str_split os_sep p)
       \<and> (\<exists>before after. ch = before @ ''chapter'' @ after \<or> ch = before @ ''project'' @ after)"
proof -
  let ?hits = "filter wanted (str_split os_sep p)"
  from assms have ne: "?hits \<noteq> []" and ch: "ch = last ?hits"
    by (auto simp: chapter_of_def index_last_def split: list.splits)
  from ne have "last ?hits \<in> set ?hits" by (rule last_in_set)
  then have "ch \<in> set ?hits" by (simp only: ch)
  then have "ch \<in> set (str_split os_sep p)" and w: "wanted ch" by simp_all
  moreover from w have "ch \<noteq> []" by (rule wanted_not_Nil)
  moreover from w have "7 \<le> length ch" by (rule wanted_length)
  moreover from w
  have "\<exists>before after. ch = before @ ''chapter'' @ after \<or> ch = before @ ''project'' @ after"
    by (simp add: wanted_iff)
  ultimately show ?thesis by blast
qed

theorem derived_name_nonempty_witness:
  "chapter_of (path nested_dir) = Inr ''chapter3''
   \<and> ''chapter3'' \<noteq> [] \<and> 7 \<le> length ''chapter3''
   \<and> ''chapter3'' \<in> set (str_split os_sep (path nested_dir))
   \<and> (\<exists>before after. ''chapter3'' = before @ ''chapter'' @ after
                      \<or> ''chapter3'' = before @ ''project'' @ after)"
proof -
  have h: "chapter_of (path nested_dir) = Inr ''chapter3''"
    by (simp add: example_defs run_defs)
  from h derived_name_nonempty [OF h] show ?thesis by (rule conjI)
qed

text \<open>
  C9. The match is case-sensitive. In \<^verbatim>\<open>/home/user/course/Chapter3\<close> no segment matches and
  the script takes the failure path, whereas the same path with a small \<^verbatim>\<open>c\<close> gives the
  name \<^verbatim>\<open>chapter3\<close>.
\<close>

theorem matching_is_case_sensitive:
  "chapter_of (path capital_dir) = Inl IndexError
   \<and> main capital_dir =
       \<lparr>trace = [StderrWrite (''Cannot determine chapter name from current path.''
                              @ [CHR 0x0A])],
        ending = SysExit (- 1)\<rparr>
   \<and> chapter_of (path (capital_dir\<lparr>getcwd := ''/home/user/course/chapter3''\<rparr>)) = Inr ''chapter3''"
proof -
  have h: "chapter_of (path capital_dir) = Inl IndexError"
    by (simp add: example_defs run_defs)
  have "chapter_of (path (capital_dir\<lparr>getcwd := ''/home/user/course/chapter3''\<rparr>)) = Inr ''chapter3''"
    by (simp add: example_defs run_defs)
  with h main_not_derived [OF h] show ?thesis by simp
qed

theorem matching_is_case_sensitive_witness:
  "exit_status (ending (main capital_dir)) = 255
   \<and> chapter_of (path capital_dir) \<noteq> Inr ''Chapter3''"
  using matching_is_case_sensitive by simp

text \<open>
  C10. Whenever a name is derived, a name that starts with a dot is not among the members
  passed to the tool, whether or not it ends in \<^verbatim>\<open>.dfy\<close>: \<^verbatim>\<open>glob\<close> leaves hidden names out
  before it matches \<^verbatim>\<open>*.dfy\<close>.
\<close>

theorem hidden_files_excluded:
  assumes "chapter_of (path e) = Inr ch"
    and "name = CHR ''.'' # rest"
  shows "name \<notin> set (glob ''*.dfy'' (listdir e))
       \<and> (\<exists>members more.
            trace (main e) = SubprocessCall ([''tar'', ''-czf'', ch @ ''.tgz''] @ members) # more
          \<and> name \<notin> set members)"
  using assms(2)
  by (cases "subprocess_call e") (simp_all add: main_derived [OF assms(1)] set_glob_dfy)

theorem hidden_files_excluded_witness:
  "chapter_of (path hidden_dir) = Inr ''chapter3''
   \<and> ''.hidden.dfy'' = CHR ''.'' # ''hidden.dfy''
   \<and> ''.hidden.dfy'' \<in> set (listdir hidden_dir)
   \<and> fnmatchcase ''.hidden.dfy'' ''*.dfy''
   \<and> ''.hidden.dfy'' \<notin> set (glob ''*.dfy'' (listdir hidden_dir))
   \<and> (\<exists>members more.
         trace (main hidden_dir) =
           SubprocessCall ([''tar'', ''-czf'', ''chapter3'' @ ''.tgz''] @ members) # more
       \<and> ''.hidden.dfy'' \<notin> set members)"
proof -
  have h1: "chapter_of (path hidden_dir) = Inr ''chapter3''"
    by (simp add: example_defs run_defs)
  have h2: "''.hidden.dfy'' = CHR ''.'' # ''hidden.dfy''"
    by simp
  have h3: "''.hidden.dfy'' \<in> set (listdir hidden_dir)"
    by (simp add: example_defs)
  have h4: "fnmatchcase ''.hidden.dfy'' ''*.dfy''"
    by (simp add: fnmatchcase_star_dfy)
  from h1 h2 h3 h4 hidden_files_excluded [OF h1 h2] show ?thesis by blast
qed

end
